theory Spec2Isabelle
  imports Main "HOL-Library.List_Lexorder" "HOL-Library.Product_Lexorder"
begin

section \<open>Zone leasing and task assignment (src/app.py)\<close>

text \<open>
  The engine is a set of request handlers over three PostgreSQL tables. The embedding
  keeps the tables as lists of rows and every handler as a function from the store
  to a result and the store after the handler's commit.

  Conventions of the embedding:
  \<^item> a character is a Unicode code point, a natural number, and a \<open>VARCHAR\<close> or a Python
    \<open>str\<close> is a list of them (\<open>unicode\<close>); \<open>lit\<close> turns an ASCII literal into such a
    list; a nullable column is an \<open>option\<close>; what the tables hold is text that
    PostgreSQL can store (\<open>pg_text\<close>);
  \<^item> a \<open>TIMESTAMP\<close> is an integer number of microseconds since 0001-01-01 00:00:00, the
    least Python \<open>datetime\<close>; \<open>CURRENT_TIMESTAMP\<close> is the start of the transaction a
    statement runs in, and is a parameter (\<open>now\<close>) of the function that sends the
    statement; every stored timestamp is a \<open>datetime\<close> (\<open>is_datetime\<close>);
  \<^item> \<open>task_id\<close> is the primary key of \<open>active_tasks\<close> and \<open>next_task_id\<close> the next value
    of its sequence;
  \<^item> \<open>ORDER BY\<close> on text compares code points;
  \<^item> \<open>unavailable\<close> says that every statement on the connection raises
    \<open>psycopg2.Error\<close>; an \<open>except\<close> branch of the source is the branch of the model
    taken when it is set;
  \<^item> \<open>ORDER BY RANDOM()\<close> draws from a function \<open>rnd\<close> from the attempt number
    to a natural number, reduced modulo the number of candidate rows;
  \<^item> Python's \<open>str.upper\<close> and SQL's \<open>UPPER\<close> are parameters (\<open>up\<close>, \<open>sql_up\<close>) of
    the functions that call them: the case tables are not part of the repository.
\<close>

subsection \<open>Tables\<close>

type_synonym unicode = "nat list"

definition lit :: "string \<Rightarrow> unicode" where
  "lit cs = map of_char cs"

type_synonym timestamp = int

record active_task =
  task_id :: int
  zone_prefix :: unicode
  badge :: unicode
  assigned_at :: timestamp
  expires_at :: timestamp
  status :: unicode

record place =
  mx_id :: int
  mx_code :: "unicode option"
  floor_num :: "int option"
  row_num :: "int option"
  section_num :: "int option"

record inventory_result =
  ir_badge :: unicode
  ir_place_cod :: "int option"
  ir_place_name :: "unicode option"
  ir_has_discrepancy :: "bool option"
  ir_created_at :: "timestamp option"

record store =
  active_tasks :: "active_task list"
  warehouse_places :: "place list"
  inventory_results :: "inventory_result list"
  next_task_id :: int
  unavailable :: bool

datatype 'a http = Http200 'a | Http400 | Http403 | Http404 | Http500 | Http503

definition hour :: int where
  "hour = 3600000000"

text \<open>The greatest Python \<open>datetime\<close>, 9999-12-31 23:59:59.999999: psycopg2 raises when it
  is to return a timestamp outside this range.\<close>

definition datetime_max :: timestamp where
  "datetime_max = 315537897599999999"

definition is_datetime :: "timestamp \<Rightarrow> bool" where
  "is_datetime t \<longleftrightarrow> 0 \<le> t \<and> t \<le> datetime_max"

text \<open>A statement raises when a text parameter holds U+0000, a surrogate or a number
  that is no code point, and when the hours of its \<open>INTERVAL\<close> literal are beyond what
  PostgreSQL reads (2147483647; from version 15 on somewhat more).\<close>

definition pg_text :: "unicode \<Rightarrow> bool" where
  "pg_text cs \<longleftrightarrow> list_all (\<lambda>c. 0 < c \<and> c \<le> 1114111 \<and> \<not> (55296 \<le> c \<and> c \<le> 57343)) cs"

definition interval_ok :: "int \<Rightarrow> bool" where
  "interval_ok hours \<longleftrightarrow> - 2147483647 \<le> hours \<and> hours \<le> 2147483647"

subsection \<open>Lease store\<close>

text \<open>The \<open>WHERE\<close> clause shared by \<open>reserve_zone\<close>, \<open>get_occupied_zones\<close> and
  \<open>get_active_tasks\<close>: \<open>status = 'active' AND expires_at > CURRENT_TIMESTAMP\<close>.\<close>

definition live :: "timestamp \<Rightarrow> active_task \<Rightarrow> bool" where
  "live now r \<longleftrightarrow> status r = lit ''active'' \<and> expires_at r > now"

text \<open>\<open>cleanup_expired_tasks\<close>: \<open>UPDATE active_tasks SET status = 'expired' WHERE
  expires_at < CURRENT_TIMESTAMP AND status = 'active'\<close>; an exception is rolled back and
  logged, and the function returns nothing either way.\<close>

definition cleanup_expired_tasks :: "timestamp \<Rightarrow> store \<Rightarrow> store" where
  "cleanup_expired_tasks now s =
     (if unavailable s then s
      else s\<lparr>active_tasks :=
             map (\<lambda>r. if expires_at r < now \<and> status r = lit ''active''
                       then r\<lparr>status := lit ''expired''\<rparr> else r)
                 (active_tasks s)\<rparr>)"

text \<open>The \<open>INSERT\<close> of a lease: \<open>task_id\<close> from the sequence, \<open>assigned_at\<close> and
  \<open>status\<close> from the column defaults. The columns are \<open>VARCHAR(50)\<close> and
  \<open>VARCHAR(100)\<close>: PostgreSQL cuts a longer value to the column's length when all it
  cuts off is blanks, and raises otherwise, as it does for a parameter that is no
  \<open>pg_text\<close>.\<close>

definition insert_fits :: "unicode \<Rightarrow> unicode \<Rightarrow> bool" where
  "insert_fits zp bdg \<longleftrightarrow>
     pg_text zp \<and> pg_text bdg
     \<and> list_all (\<lambda>c. c = 32) (drop 50 zp) \<and> list_all (\<lambda>c. c = 32) (drop 100 bdg)"

definition insert_task :: "timestamp \<Rightarrow> unicode \<Rightarrow> unicode \<Rightarrow> int \<Rightarrow> store \<Rightarrow> store" where
  "insert_task now zp bdg hours s =
     s\<lparr>active_tasks := active_tasks s @
          [\<lparr>task_id = next_task_id s, zone_prefix = take 50 zp, badge = take 100 bdg,
            assigned_at = now, expires_at = now + hours * hour, status = lit ''active''\<rparr>],
       next_task_id := next_task_id s + 1\<rparr>"

text \<open>\<open>reserve_zone\<close>: select a live lease of the prefix; return \<open>False\<close> when there is
  one; otherwise insert, commit and return \<open>True\<close>. Any exception is rolled back and
  the function returns \<open>False\<close>.\<close>

definition reserve_zone :: "timestamp \<Rightarrow> unicode \<Rightarrow> unicode \<Rightarrow> int \<Rightarrow> store \<Rightarrow> bool \<times> store" where
  "reserve_zone now zp bdg hours s =
     (if unavailable s then (False, s)
      else case filter (\<lambda>r. zone_prefix r = zp \<and> live now r) (active_tasks s) of
             existing # _ \<Rightarrow> (False, s)
           | [] \<Rightarrow> (if insert_fits zp bdg \<and> interval_ok hours
                   then (True, insert_task now zp bdg hours s)
                   else (False, s)))"

text \<open>\<open>get_occupied_zones\<close>: the set of prefixes of the live leases; the empty set when an
  exception is caught.\<close>

definition get_occupied_zones :: "timestamp \<Rightarrow> store \<Rightarrow> unicode set" where
  "get_occupied_zones now s =
     (if unavailable s then {}
      else zone_prefix ` set (filter (live now) (active_tasks s)))"

text \<open>\<open>get_active_tasks\<close>: the live leases, latest assignment first. The derived
  \<open>hours_left\<close> (a rounded float) is left out of the rows.\<close>

definition get_active_tasks :: "timestamp \<Rightarrow> store \<Rightarrow> active_task list http" where
  "get_active_tasks now s =
     (if unavailable s then Http500
      else Http200 (sort_key (\<lambda>r. - assigned_at r) (filter (live now) (active_tasks s))))"

subsection \<open>Task lifecycle\<close>

text \<open>\<open>complete_task\<close>: 400 when badge or zone is empty; otherwise the \<open>UPDATE\<close> of the
  caller's rows of that zone with \<open>status = 'active'\<close>, and \<open>success\<close> says whether a row
  was updated. The statement does not mention \<open>expires_at\<close>.\<close>

definition complete_task :: "unicode \<Rightarrow> unicode \<Rightarrow> store \<Rightarrow> bool http \<times> store" where
  "complete_task bdg zn s =
     (if bdg = [] \<or> zn = [] then (Http400, s)
      else if unavailable s then (Http500, s)
      else let hit = (\<lambda>r. zone_prefix r = zn \<and> badge r = bdg \<and> status r = lit ''active'');
               updated = length (filter hit (active_tasks s))
           in (Http200 (updated > 0),
               s\<lparr>active_tasks :=
                    map (\<lambda>r. if hit r then r\<lparr>status := lit ''completed''\<rparr> else r)
                        (active_tasks s)\<rparr>))"

text \<open>\<open>admin_extend_task\<close>: 403 without the admin cookie, 400 without a \<open>task_id\<close>
  (\<open>not task_id\<close> also rejects 0); then \<open>UPDATE active_tasks SET expires_at = expires_at +
  INTERVAL 'hours' WHERE task_id = ... AND status = 'active' RETURNING ...\<close>; 404 when no
  row was returned. An interval that PostgreSQL does not read makes the statement raise.
  The returned row carries the new \<open>expires_at\<close>: when that is not a \<open>datetime\<close> the
  statement or \<open>fetchone\<close> raises before the commit, the update is rolled back and the
  answer is 500.\<close>

definition admin_extend_task ::
  "unicode option \<Rightarrow> int option \<Rightarrow> int \<Rightarrow> store \<Rightarrow> active_task http \<times> store" where
  "admin_extend_task admin_badge tid hours s =
     (if admin_badge \<noteq> Some (lit ''ADMIN'') then (Http403, s)
      else case tid of
             None \<Rightarrow> (Http400, s)
           | Some t \<Rightarrow>
              (if t = 0 then (Http400, s)
               else if unavailable s \<or> \<not> interval_ok hours then (Http500, s)
               else let hit = (\<lambda>r. task_id r = t \<and> status r = lit ''active'');
                        ext = (\<lambda>r. r\<lparr>expires_at := expires_at r + hours * hour\<rparr>)
                    in (case filter hit (active_tasks s) of
                          [] \<Rightarrow> (Http404, s)
                        | r # _ \<Rightarrow>
                            (if is_datetime (expires_at (ext r))
                             then (Http200 (ext r),
                                   s\<lparr>active_tasks :=
                                        map (\<lambda>r. if hit r then ext r else r) (active_tasks s)\<rparr>)
                             else (Http500, s)))))"

subsection \<open>Two clients in \<open>reserve_zone\<close>\<close>

text \<open>\<open>reserve_zone\<close> sends two statements, the \<open>SELECT\<close> and the \<open>INSERT\<close> with its
  commit, and the server runs the statements of two connections in any order. A call is
  at its \<open>SELECT\<close>, at its \<open>INSERT\<close>, or has returned; one step runs the next statement of
  the call on the committed rows. The table has no uniqueness constraint on
  \<open>zone_prefix\<close> (\<open>CREATE TABLE active_tasks\<close>, and two plain indexes), so the
  \<open>INSERT\<close> is rejected only for a value that the statement or the column refuses.\<close>

datatype reserve_pc = AtSelect | AtInsert | Returned bool

record reserve_call =
  call_now :: timestamp
  call_zone :: unicode
  call_badge :: unicode
  call_hours :: int

fun reserve_zone_step :: "reserve_call \<Rightarrow> reserve_pc \<times> store \<Rightarrow> reserve_pc \<times> store" where
  "reserve_zone_step c (AtSelect, s) =
     (if unavailable s then (Returned False, s)
      else case filter (\<lambda>r. zone_prefix r = call_zone c \<and> live (call_now c) r) (active_tasks s) of
             existing # _ \<Rightarrow> (Returned False, s)
           | [] \<Rightarrow> (AtInsert, s))"
| "reserve_zone_step c (AtInsert, s) =
     (if unavailable s \<or> \<not> insert_fits (call_zone c) (call_badge c)
         \<or> \<not> interval_ok (call_hours c) then (Returned False, s)
      else (Returned True,
            insert_task (call_now c) (call_zone c) (call_badge c) (call_hours c) s))"
| "reserve_zone_step c (Returned b, s) = (Returned b, s)"

datatype client = First | Second

fun interleave ::
  "reserve_call \<Rightarrow> reserve_call \<Rightarrow> client list \<Rightarrow> reserve_pc \<times> reserve_pc \<times> store
     \<Rightarrow> reserve_pc \<times> reserve_pc \<times> store" where
  "interleave a b [] st = st"
| "interleave a b (First # sched) (pa, pb, s) =
     (case reserve_zone_step a (pa, s) of (pa', s') \<Rightarrow> interleave a b sched (pa', pb, s'))"
| "interleave a b (Second # sched) (pa, pb, s) =
     (case reserve_zone_step b (pb, s) of (pb', s') \<Rightarrow> interleave a b sched (pa, pb', s'))"

text \<open>The invariant of the lease table at time \<open>t\<close>: no prefix has two live leases.\<close>

definition zone_exclusive :: "timestamp \<Rightarrow> store \<Rightarrow> bool" where
  "zone_exclusive t s \<longleftrightarrow>
     distinct (map zone_prefix (filter (live t) (active_tasks s)))"

subsection \<open>Occupancy resolver\<close>

text \<open>\<open>text LIKE pattern\<close> of PostgreSQL: \<open>%\<close> (37) matches any sequence, \<open>_\<close> (95) any
  one character, and a backslash (92) takes the next pattern character literally.\<close>

fun sql_like :: "unicode \<Rightarrow> unicode \<Rightarrow> bool" where
  "sql_like [] t = (t = [])"
| "sql_like (p # ps) [] = (p = 37 \<and> sql_like ps [])"
| "sql_like (p # ps) (c # cs) =
     (if p = 37 then sql_like ps (c # cs) \<or> sql_like (p # ps) cs
      else if p = 95 then sql_like ps cs
      else if p = 92 then (case ps of [] \<Rightarrow> False | q # qs \<Rightarrow> c = q \<and> sql_like qs cs)
      else c = p \<and> sql_like ps cs)"

text \<open>The \<open>random_place\<close> common table expression: one row drawn from the places with a
  non-empty code.\<close>

definition random_place :: "nat \<Rightarrow> place list \<Rightarrow> unicode option" where
  "random_place r ps =
     (case filter (\<lambda>p. mx_code p \<noteq> None \<and> mx_code p \<noteq> Some []) ps of
        [] \<Rightarrow> None
      | c # cs \<Rightarrow> mx_code ((c # cs) ! (r mod length (c # cs))))"

record task_place =
  place_cod :: int
  place_name :: unicode
  qty_shk :: int

text \<open>The rows of the sampling query of \<open>get_new_task\<close>: the places whose code is
  \<open>LIKE SUBSTRING(r.mx_code, 1, 9) || '%'\<close>, by code, at most \<open>zone_size\<close> of them.\<close>

definition zone_rows :: "nat \<Rightarrow> int \<Rightarrow> place list \<Rightarrow> task_place list" where
  "zone_rows r zone_size ps =
     (case random_place r ps of
        None \<Rightarrow> []
      | Some code \<Rightarrow>
          take (nat zone_size)
            (sort_key place_name
               (List.map_filter
                  (\<lambda>w. case mx_code w of
                          None \<Rightarrow> None
                        | Some c \<Rightarrow>
                            if sql_like (take 9 code @ [37]) c
                            then Some \<lparr>place_cod = mx_id w, place_name = c, qty_shk = 0\<rparr>
                            else None)
                  ps)))"

record task =
  zone :: unicode
  total_places :: nat
  places :: "task_place list"
  reserved :: bool

definition max_attempts :: nat where
  "max_attempts = 10"

text \<open>\<open>LIMIT\<close> takes a \<open>bigint\<close> that is not negative: for any other \<open>zone_size\<close> the
  sampling query raises.\<close>

definition limit_ok :: "int \<Rightarrow> bool" where
  "limit_ok zone_size \<longleftrightarrow> 0 \<le> zone_size \<and> zone_size < 2 ^ 63"

text \<open>The \<open>for attempt in range(max_attempts)\<close> loop of \<open>get_new_task\<close>. A failing
  statement raises into the handler's \<open>except\<close>: 500. The end of the loop is the 503
  answer. \<open>now\<close> is the start of the transaction that \<open>get_occupied_zones\<close> opened; it
  stays open until \<open>reserve_zone\<close> commits (and the handler returns) or rolls back. A
  rollback follows an \<open>INSERT\<close> that does not fit, which no later attempt of the same
  badge can pass, so the start of the transactions after it has no bearing on the result.\<close>

fun task_attempts ::
  "(nat \<Rightarrow> nat) \<Rightarrow> timestamp \<Rightarrow> unicode \<Rightarrow> int \<Rightarrow> nat list \<Rightarrow> unicode set \<Rightarrow> store
     \<Rightarrow> task http \<times> store" where
  "task_attempts rnd now bdg zone_size [] occupied_zones s = (Http503, s)"
| "task_attempts rnd now bdg zone_size (attempt # rest) occupied_zones s =
     (if unavailable s \<or> \<not> limit_ok zone_size then (Http500, s)
      else case zone_rows (rnd attempt) zone_size (warehouse_places s) of
             [] \<Rightarrow> task_attempts rnd now bdg zone_size rest occupied_zones s
           | p # ps \<Rightarrow>
               (if place_name p = [] then task_attempts rnd now bdg zone_size rest occupied_zones s
                else if take 9 (place_name p) \<in> occupied_zones
                  then task_attempts rnd now bdg zone_size rest occupied_zones s
                else case reserve_zone now (take 9 (place_name p)) bdg 2 s of
                       (True, s') \<Rightarrow>
                         (Http200 \<lparr>zone = take 9 (place_name p), total_places = length (p # ps),
                                   places = p # ps, reserved = True\<rparr>, s')
                     | (False, s') \<Rightarrow>
                         task_attempts rnd now bdg zone_size rest
                           (insert (take 9 (place_name p)) occupied_zones) s'))"

text \<open>\<open>get_new_task\<close>: sweep, occupied set, then the attempts. The sweep runs in the
  transaction that is open on the connection, or a new one, and commits it: its
  \<open>CURRENT_TIMESTAMP\<close> is \<open>sweep_now\<close>. What follows runs in a transaction opened after
  that commit, with \<open>CURRENT_TIMESTAMP\<close> \<open>now\<close>.\<close>

definition get_new_task ::
  "(nat \<Rightarrow> nat) \<Rightarrow> timestamp \<Rightarrow> timestamp \<Rightarrow> unicode \<Rightarrow> int \<Rightarrow> store \<Rightarrow> task http \<times> store" where
  "get_new_task rnd sweep_now now bdg zone_size s =
     (let s1 = cleanup_expired_tasks sweep_now s;
          occupied_zones = get_occupied_zones now s1
      in task_attempts rnd now bdg zone_size [0..<max_attempts] occupied_zones s1)"

subsection \<open>Proximity recommender\<close>

text \<open>Python's \<open>str.strip()\<close> removes the characters of \<open>str.isspace\<close> from both ends;
  SQL's \<open>TRIM\<close> removes blanks (32).\<close>

definition is_space :: "nat \<Rightarrow> bool" where
  "is_space c \<longleftrightarrow>
     c \<in> {9, 10, 11, 12, 13, 28, 29, 30, 31, 32, 133, 160, 5760, 8232, 8233, 8239, 8287, 12288}
     \<or> (8192 \<le> c \<and> c \<le> 8202)"

definition strip :: "unicode \<Rightarrow> unicode" where
  "strip cs = rev (dropWhile is_space (rev (dropWhile is_space cs)))"

definition sql_trim :: "unicode \<Rightarrow> unicode" where
  "sql_trim cs = rev (dropWhile (\<lambda>c. c = 32) (rev (dropWhile (\<lambda>c. c = 32) cs)))"

text \<open>\<open>SELECT floor, row_num, section FROM warehouse_places WHERE UPPER(TRIM(mx_code)) =
  UPPER(TRIM(%s)) LIMIT 1\<close> and the same by \<open>mx_id\<close>.\<close>

definition place_by_code :: "(unicode \<Rightarrow> unicode) \<Rightarrow> unicode \<Rightarrow> place list \<Rightarrow> place option" where
  "place_by_code sql_up code ps =
     find (\<lambda>p. case mx_code p of
                  None \<Rightarrow> False
                | Some c \<Rightarrow> sql_up (sql_trim c) = sql_up (sql_trim code)) ps"

definition place_by_id :: "int \<Rightarrow> place list \<Rightarrow> place option" where
  "place_by_id pc ps = find (\<lambda>p. mx_id p = pc) ps"

text \<open>The key of \<open>ORDER BY ... DESC NULLS LAST\<close> on a nullable timestamp.\<close>

definition desc_nulls_last :: "timestamp option \<Rightarrow> nat \<times> int" where
  "desc_nulls_last v = (case v of None \<Rightarrow> (1, 0) | Some t \<Rightarrow> (0, - t))"

text \<open>The last scan of a worker: \<open>WHERE ir.badge = %s AND (ir.place_cod IS NOT NULL OR
  ir.place_name IS NOT NULL) ORDER BY ir.created_at DESC NULLS LAST LIMIT 1\<close>.\<close>

definition last_scan :: "unicode \<Rightarrow> inventory_result list \<Rightarrow> inventory_result option" where
  "last_scan bdg rs =
     (case sort_key (\<lambda>r. desc_nulls_last (ir_created_at r))
             (filter (\<lambda>r. ir_badge r = bdg \<and> (ir_place_cod r \<noteq> None \<or> ir_place_name r \<noteq> None)) rs) of
        [] \<Rightarrow> None
      | r # _ \<Rightarrow> Some r)"

text \<open>The reference address \<open>(ref_floor, ref_row, ref_section)\<close>: from \<open>near\<close> when it is
  given, else from the last scan of \<open>badge\<close>, else all \<open>None\<close>.\<close>

definition address :: "place option \<Rightarrow> int option \<times> int option \<times> int option" where
  "address row = (case row of
                    None \<Rightarrow> (None, None, None)
                  | Some p \<Rightarrow> (floor_num p, row_num p, section_num p))"

definition reference_of_badge ::
  "(unicode \<Rightarrow> unicode) \<Rightarrow> unicode option \<Rightarrow> store \<Rightarrow> int option \<times> int option \<times> int option" where
  "reference_of_badge sql_up bdg s =
     (case bdg of
        None \<Rightarrow> (None, None, None)
      | Some b \<Rightarrow>
          if b = [] then (None, None, None)
          else (case last_scan b (inventory_results s) of
                  None \<Rightarrow> (None, None, None)
                | Some scan \<Rightarrow>
                    (case ir_place_cod scan of
                       Some pc \<Rightarrow> address (place_by_id pc (warehouse_places s))
                     | None \<Rightarrow>
                        (case ir_place_name scan of
                           None \<Rightarrow> (None, None, None)
                         | Some pn \<Rightarrow>
                             if pn = [] then (None, None, None)
                             else address (place_by_code sql_up pn (warehouse_places s))))))"

definition reference ::
  "(unicode \<Rightarrow> unicode) \<Rightarrow> unicode option \<Rightarrow> unicode option \<Rightarrow> store
     \<Rightarrow> int option \<times> int option \<times> int option" where
  "reference sql_up bdg near s =
     (case near of
        None \<Rightarrow> reference_of_badge sql_up bdg s
      | Some n \<Rightarrow>
          if n = [] then reference_of_badge sql_up bdg s
          else address (place_by_code sql_up n (warehouse_places s)))"

text \<open>\<open>MAX(ir.created_at)\<close> of a group: nulls are skipped, and the maximum of nothing is
  null.\<close>

definition max_created :: "inventory_result list \<Rightarrow> timestamp option" where
  "max_created rs =
     fold (\<lambda>r acc. case ir_created_at r of
                      None \<Rightarrow> acc
                    | Some t \<Rightarrow> (case acc of None \<Rightarrow> Some t | Some a \<Rightarrow> Some (max a t)))
          rs None"

text \<open>The priority query: the names with a discrepancy, grouped, latest first, five of
  them; \<open>priority_mx\<close> holds their stripped upper-case forms.\<close>

definition discrepancy_names :: "inventory_result list \<Rightarrow> unicode list" where
  "discrepancy_names rs =
     List.map_filter
       (\<lambda>r. if ir_has_discrepancy r = Some True
             then (case ir_place_name r of
                     None \<Rightarrow> None
                   | Some n \<Rightarrow> if n = [] then None else Some n)
             else None) rs"

definition discrepancy_rows :: "inventory_result list \<Rightarrow> unicode \<Rightarrow> inventory_result list" where
  "discrepancy_rows rs n =
     filter (\<lambda>r. ir_has_discrepancy r = Some True \<and> ir_place_name r = Some n) rs"

definition priority_rows :: "inventory_result list \<Rightarrow> unicode list" where
  "priority_rows rs =
     take 5
       (sort_key (\<lambda>n. desc_nulls_last (max_created (discrepancy_rows rs n)))
          (remdups (discrepancy_names rs)))"

definition priority_mx :: "(unicode \<Rightarrow> unicode) \<Rightarrow> inventory_result list \<Rightarrow> unicode set" where
  "priority_mx up rs = (\<lambda>n. up (strip n)) ` set (filter (\<lambda>n. n \<noteq> []) (priority_rows rs))"

record nearest_row =
  nr_mx_code :: unicode
  dist :: int

text \<open>The nearest query: \<open>ABS(f - rf) + ABS(r - rr) + ABS(s - rs)\<close> over the places with
  a non-empty code, \<open>COALESCE\<close>d to 0, \<open>ORDER BY dist ASC, mx_code ASC LIMIT 20\<close>.\<close>

definition or_zero :: "int option \<Rightarrow> int" where
  "or_zero v = (case v of None \<Rightarrow> 0 | Some x \<Rightarrow> x)"

definition place_dist :: "int \<Rightarrow> int \<Rightarrow> int \<Rightarrow> place \<Rightarrow> int" where
  "place_dist rf rr rs p =
     \<bar>or_zero (floor_num p) - rf\<bar> + \<bar>or_zero (row_num p) - rr\<bar> + \<bar>or_zero (section_num p) - rs\<bar>"

definition all_distances :: "int \<Rightarrow> int \<Rightarrow> int \<Rightarrow> place list \<Rightarrow> nearest_row list" where
  "all_distances rf rr rs ps =
     List.map_filter
       (\<lambda>p. case mx_code p of
               None \<Rightarrow> None
             | Some c \<Rightarrow> if c = [] then None
                         else Some \<lparr>nr_mx_code = c, dist = place_dist rf rr rs p\<rparr>) ps"

definition nearest :: "int \<Rightarrow> int \<Rightarrow> int \<Rightarrow> place list \<Rightarrow> nearest_row list" where
  "nearest rf rr rs ps =
     take 20 (sort_key (\<lambda>row. (dist row, nr_mx_code row)) (all_distances rf rr rs ps))"

record suggestion =
  sg_mx_code :: unicode
  sg_zone :: unicode
  highlight :: bool

text \<open>The loop over \<open>nearest\<close>: skip an empty or already seen code, append, stop at 12.\<close>

fun suggest_loop ::
  "(unicode \<Rightarrow> unicode) \<Rightarrow> unicode set \<Rightarrow> nearest_row list \<Rightarrow> unicode set \<Rightarrow> suggestion list
     \<Rightarrow> suggestion list" where
  "suggest_loop up prio [] seen_mx suggestions = suggestions"
| "suggest_loop up prio (row # rows) seen_mx suggestions =
     (let mc = strip (nr_mx_code row)
      in if mc = [] \<or> up mc \<in> seen_mx then suggest_loop up prio rows seen_mx suggestions
         else let suggestions' = suggestions @
                    [\<lparr>sg_mx_code = mc,
                      sg_zone = (if length mc \<ge> 9 then take 9 mc else mc),
                      highlight = (up mc \<in> prio)\<rparr>]
              in if length suggestions' \<ge> 12 then suggestions'
                 else suggest_loop up prio rows (insert (up mc) seen_mx) suggestions')"

text \<open>The parameter that the reference queries send: \<open>near\<close> when it is given, else
  \<open>badge\<close> when that is given.\<close>

definition sent_parameter :: "unicode option \<Rightarrow> unicode option \<Rightarrow> unicode" where
  "sent_parameter bdg near =
     (case near of
        None \<Rightarrow> (case bdg of None \<Rightarrow> [] | Some b \<Rightarrow> b)
      | Some n \<Rightarrow> if n = [] then (case bdg of None \<Rightarrow> [] | Some b \<Rightarrow> b) else n)"

definition get_task_suggestions ::
  "(unicode \<Rightarrow> unicode) \<Rightarrow> (unicode \<Rightarrow> unicode) \<Rightarrow> unicode option \<Rightarrow> unicode option \<Rightarrow> store
     \<Rightarrow> suggestion list http" where
  "get_task_suggestions up sql_up bdg near s =
     (if unavailable s \<or> \<not> pg_text (sent_parameter bdg near) then Http500
      else case reference sql_up bdg near s of
             (ref_floor, ref_row, ref_section) \<Rightarrow>
               (let rf = or_zero ref_floor;
                    rr = or_zero ref_row;
                    rs = or_zero ref_section
                in Http200 (suggest_loop up (priority_mx up (inventory_results s))
                              (nearest rf rr rs (warehouse_places s)) {} [])))"

subsection \<open>What the recommender is to compute\<close>

text \<open>The answer in the words of the specification: of the rows that have a code after
  stripping, the first row of every normalised code, twelve of them, each turned into a
  candidate.\<close>

fun first_seen :: "('a \<Rightarrow> 'k) \<Rightarrow> 'a list \<Rightarrow> 'a list" where
  "first_seen k [] = []"
| "first_seen k (x # xs) = x # first_seen k (filter (\<lambda>y. k y \<noteq> k x) xs)"

definition candidate :: "(unicode \<Rightarrow> unicode) \<Rightarrow> unicode set \<Rightarrow> nearest_row \<Rightarrow> suggestion" where
  "candidate up prio row =
     \<lparr>sg_mx_code = strip (nr_mx_code row), sg_zone = take 9 (strip (nr_mx_code row)),
      highlight = (up (strip (nr_mx_code row)) \<in> prio)\<rparr>"

definition shortlist :: "(unicode \<Rightarrow> unicode) \<Rightarrow> nearest_row list \<Rightarrow> nearest_row list" where
  "shortlist up rows =
     take 12 (first_seen (\<lambda>row. up (strip (nr_mx_code row)))
                (filter (\<lambda>row. strip (nr_mx_code row) \<noteq> []) rows))"

text \<open>Recency of discrepancy names in the words of the specification: \<open>is_latest rs v\<close>
  says that \<open>v\<close> is the latest \<open>created_at\<close> of the rows \<open>rs\<close>, or null when none has
  one; \<open>newer a b\<close> that \<open>a\<close> is later than \<open>b\<close>, a null being older than any time.\<close>

definition is_latest :: "inventory_result list \<Rightarrow> timestamp option \<Rightarrow> bool" where
  "is_latest rs v =
     (case v of
        None \<Rightarrow> list_all (\<lambda>r. ir_created_at r = None) rs
      | Some t \<Rightarrow> list_ex (\<lambda>r. ir_created_at r = Some t) rs
                  \<and> list_all (\<lambda>r. case ir_created_at r of None \<Rightarrow> True | Some t' \<Rightarrow> t' \<le> t) rs)"

definition newer :: "timestamp option \<Rightarrow> timestamp option \<Rightarrow> bool" where
  "newer a b = (case a of
                  None \<Rightarrow> False
                | Some x \<Rightarrow> (case b of None \<Rightarrow> True | Some y \<Rightarrow> y < x))"

subsection \<open>Sample stores\<close>

text \<open>A store with no rows, a two-hour lease of zone \<open>36.02.40.\<close> taken at time 0, the
  lease a second worker would get at time 1, and two calls of \<open>reserve_zone\<close> for that
  zone.\<close>

definition empty_store :: store where
  "empty_store = \<lparr>active_tasks = [], warehouse_places = [], inventory_results = [],
                   next_task_id = 1, unavailable = False\<rparr>"

definition lease_a :: active_task where
  "lease_a = \<lparr>task_id = 1, zone_prefix = lit ''36.02.40.'', badge = lit ''A100'',
              assigned_at = 0, expires_at = 7200000000, status = lit ''active''\<rparr>"

definition lease_b :: active_task where
  "lease_b = \<lparr>task_id = 2, zone_prefix = lit ''36.02.40.'', badge = lit ''B200'',
              assigned_at = 1, expires_at = 7200000001, status = lit ''active''\<rparr>"

definition store_a :: store where
  "store_a = empty_store\<lparr>active_tasks := [lease_a], next_task_id := 2\<rparr>"

definition call_a :: reserve_call where
  "call_a = \<lparr>call_now = 0, call_zone = lit ''36.02.40.'', call_badge = lit ''A100'',
             call_hours = 2\<rparr>"

definition call_b :: reserve_call where
  "call_b = \<lparr>call_now = 1, call_zone = lit ''36.02.40.'', call_badge = lit ''B200'',
             call_hours = 2\<rparr>"

lemmas examples = empty_store_def lease_a_def lease_b_def store_a_def call_a_def call_b_def

text \<open>A catalog of two zones, the store with lease \<open>lease_a\<close> over it, the store whose
  catalog is the leased zone alone, and the sampler that always draws the first row.\<close>

definition rnd_zero :: "nat \<Rightarrow> nat" where
  "rnd_zero attempt = 0"

definition place_1 :: place where
  "place_1 = \<lparr>mx_id = 1, mx_code = Some (lit ''36.02.40.140.06.01''), floor_num = Some 2,
               row_num = Some 40, section_num = Some 140\<rparr>"

definition place_2 :: place where
  "place_2 = \<lparr>mx_id = 2, mx_code = Some (lit ''36.02.40.140.06.02''), floor_num = Some 2,
               row_num = Some 40, section_num = Some 140\<rparr>"

definition place_3 :: place where
  "place_3 = \<lparr>mx_id = 3, mx_code = Some (lit ''36.03.10.050.01.01''), floor_num = Some 3,
               row_num = Some 10, section_num = Some 50\<rparr>"

definition store_busy :: store where
  "store_busy = store_a\<lparr>warehouse_places := [place_1, place_2]\<rparr>"

definition store_catalog :: store where
  "store_catalog = store_a\<lparr>warehouse_places := [place_1, place_2, place_3]\<rparr>"

lemmas places = place_1_def place_2_def place_3_def store_busy_def store_catalog_def

text \<open>Two scans over that catalog: worker A100 at the first place without a discrepancy,
  then worker B200 at the third place with one. \<open>ascii_upper\<close> is \<open>str.upper\<close> and
  \<open>UPPER\<close> on ASCII text, which is what the samples hold.\<close>

definition ascii_upper :: "unicode \<Rightarrow> unicode" where
  "ascii_upper cs = map (\<lambda>c. if 97 \<le> c \<and> c \<le> 122 then c - 32 else c) cs"

definition scan_1 :: inventory_result where
  "scan_1 = \<lparr>ir_badge = lit ''A100'', ir_place_cod = Some 1,
              ir_place_name = Some (lit ''36.02.40.140.06.01''), ir_has_discrepancy = Some False,
              ir_created_at = Some 100\<rparr>"

definition scan_2 :: inventory_result where
  "scan_2 = \<lparr>ir_badge = lit ''B200'', ir_place_cod = Some 3,
              ir_place_name = Some (lit '' 36.03.10.050.01.01''), ir_has_discrepancy = Some True,
              ir_created_at = Some 200\<rparr>"

definition store_scans :: store where
  "store_scans = store_catalog\<lparr>inventory_results := [scan_1, scan_2]\<rparr>"

lemmas scans = scan_1_def scan_2_def store_scans_def

text \<open>A catalog whose place at address (2, 40, 140) has a code of one blank, with a
  second place five sections on, and the scan of worker A100 at the first.\<close>

definition place_blank :: place where
  "place_blank = \<lparr>mx_id = 4, mx_code = Some (lit '' ''), floor_num = Some 2,
                   row_num = Some 40, section_num = Some 140\<rparr>"

definition place_far :: place where
  "place_far = \<lparr>mx_id = 5, mx_code = Some (lit ''36.02.40.145.01.01''), floor_num = Some 2,
                 row_num = Some 40, section_num = Some 145\<rparr>"

definition scan_blank :: inventory_result where
  "scan_blank = \<lparr>ir_badge = lit ''A100'', ir_place_cod = Some 4,
                  ir_place_name = None, ir_has_discrepancy = Some False,
                  ir_created_at = Some 100\<rparr>"

definition store_blank :: store where
  "store_blank = empty_store\<lparr>warehouse_places := [place_blank, place_far],
                             inventory_results := [scan_blank]\<rparr>"

lemmas blanks = place_blank_def place_far_def scan_blank_def store_blank_def

section \<open>Properties\<close>

subsection \<open>Literals\<close>

lemma lit_eq [simp]: "lit a = lit b \<longleftrightarrow> a = b"
  by (simp add: lit_def inj_map_eq_map inj_on_def)

lemma lit_Nil [simp]: "lit a = [] \<longleftrightarrow> a = []" "[] = lit a \<longleftrightarrow> a = []"
  by (auto simp: lit_def)

lemma take_lit: "take n (lit a) = lit (take n a)"
  by (simp add: lit_def take_map)

lemma length_lit [simp]: "length (lit a) = length a"
  by (simp add: lit_def)

lemma pg_text_lit_digits [simp]: "pg_text (lit ''36.02.40.'')" "pg_text (lit ''36.03.10.'')"
  "pg_text (lit ''A100'')" "pg_text (lit ''B200'')"
  by (simp_all add: pg_text_def lit_def)

lemma insert_fits_short:
  "pg_text zp \<Longrightarrow> pg_text bdg \<Longrightarrow> length zp \<le> 50 \<Longrightarrow> length bdg \<le> 100
     \<Longrightarrow> insert_fits zp bdg"
  by (simp add: insert_fits_def)

lemma interval_ok_2 [simp]: "interval_ok 2"
  by (simp add: interval_ok_def)

subsection \<open>Mutual exclusion of leases\<close>

text \<open>Run back to back, the two steps of a call are \<open>reserve_zone\<close>.\<close>

lemma reserve_zone_steps:
  "reserve_zone_step c (reserve_zone_step c (AtSelect, s)) =
     (case reserve_zone (call_now c) (call_zone c) (call_badge c) (call_hours c) s of
        (ok, s') \<Rightarrow> (Returned ok, s'))"
  by (auto simp: reserve_zone_def split: list.splits)

text \<open>A call of \<open>reserve_zone\<close> that nothing interrupts keeps the leases exclusive at
  every time from its own \<open>now\<close> on (for a prefix that the column holds uncut).\<close>

lemma reserve_zone_keeps_exclusive:
  assumes "zone_exclusive t s" and "now \<le> t" and "length zp \<le> 50"
  shows "zone_exclusive t (snd (reserve_zone now zp bdg hours s))"
proof (cases "fst (reserve_zone now zp bdg hours s)")
  case False
  then have "snd (reserve_zone now zp bdg hours s) = s"
    by (auto simp: reserve_zone_def split: list.splits if_splits)
  then show ?thesis using assms by simp
next
  case True
  then have none: "filter (\<lambda>r. zone_prefix r = zp \<and> live now r) (active_tasks s) = []"
    and s': "snd (reserve_zone now zp bdg hours s) = insert_task now zp bdg hours s"
    by (auto simp: reserve_zone_def split: list.splits if_splits)
  have "zp \<notin> zone_prefix ` set (filter (live t) (active_tasks s))"
  proof
    assume "zp \<in> zone_prefix ` set (filter (live t) (active_tasks s))"
    then obtain r where r: "r \<in> set (active_tasks s)" "live t r" "zone_prefix r = zp"
      by auto
    then have "live now r" using assms(2) by (simp add: live_def)
    then have "r \<in> set (filter (\<lambda>r. zone_prefix r = zp \<and> live now r) (active_tasks s))"
      using r by simp
    then show False using none by simp
  qed
  then show ?thesis
    using assms(1,3) unfolding s' by (auto simp: zone_exclusive_def insert_task_def)
qed

text \<open>
  C1. Claimed: no prefix ever has two live leases, also when two calls of
  \<open>reserve_zone\<close> race for the same prefix. On the code the race is lost: from the
  empty table, with the statements of the two calls run in the order select, select,
  insert, insert, both calls return \<open>True\<close> and the table holds two live leases of
  zone \<open>36.02.40.\<close>; the table was exclusive before and is not after.
\<close>

theorem reserve_zone_race:
  "zone_exclusive 1 empty_store \<and>
   interleave call_a call_b [First, Second, First, Second] (AtSelect, AtSelect, empty_store) =
     (Returned True, Returned True,
      empty_store\<lparr>active_tasks := [lease_a, lease_b], next_task_id := 3\<rparr>) \<and>
   \<not> zone_exclusive 1 (empty_store\<lparr>active_tasks := [lease_a, lease_b], next_task_id := 3\<rparr>)"
  by (simp add: examples zone_exclusive_def live_def insert_fits_short insert_task_def hour_def
        take_lit)

subsection \<open>Completion\<close>

lemma filter_hit_map_done:
  "filter (\<lambda>r. P r \<and> status r = (lit ''active''))
      (map (\<lambda>r. if P r \<and> status r = (lit ''active'') then r\<lparr>status := (lit ''completed'')\<rparr> else r) ts) = []"
  by (induction ts) auto

text \<open>
  C2. For a present (non-empty) badge and zone and a store that answers, when exactly one
  lease of that worker and zone has status active, \<open>complete_task\<close> answers
  \<open>success = True\<close> and the lease becomes completed; the same call again answers
  \<open>success = False\<close> and changes nothing. Both answers are 200.
\<close>

theorem complete_task_twice:
  assumes "bdg \<noteq> []" and "zn \<noteq> []" and "\<not> unavailable s"
    and "filter (\<lambda>r. zone_prefix r = zn \<and> badge r = bdg \<and> status r = (lit ''active''))
           (active_tasks s) = [l]"
  shows "fst (complete_task bdg zn s) = Http200 True
       \<and> l\<lparr>status := (lit ''completed'')\<rparr> \<in> set (active_tasks (snd (complete_task bdg zn s)))
       \<and> complete_task bdg zn (snd (complete_task bdg zn s))
           = (Http200 False, snd (complete_task bdg zn s))"
proof -
  let ?hit = "\<lambda>r. zone_prefix r = zn \<and> badge r = bdg \<and> status r = (lit ''active'')"
  let ?upd = "\<lambda>r. if ?hit r then r\<lparr>status := (lit ''completed'')\<rparr> else r"
  let ?s1 = "snd (complete_task bdg zn s)"
  have "l \<in> set (filter ?hit (active_tasks s))"
    using assms(4) by simp
  then have l: "l \<in> set (active_tasks s)" "?hit l"
    by simp_all
  have s1: "?s1 = s\<lparr>active_tasks := map ?upd (active_tasks s)\<rparr>"
    using assms(1-3) by (simp add: complete_task_def Let_def)
  have first: "fst (complete_task bdg zn s) = Http200 True"
    using assms by (simp add: complete_task_def Let_def)
  have eq: "l\<lparr>status := (lit ''completed'')\<rparr> = ?upd l"
    using l(2) by simp
  have "?upd l \<in> ?upd ` set (active_tasks s)"
    using imageI[of l "set (active_tasks s)" ?upd, OF l(1)] .
  then have "l\<lparr>status := (lit ''completed'')\<rparr> \<in> ?upd ` set (active_tasks s)"
    unfolding eq[symmetric] .
  then have moved: "l\<lparr>status := (lit ''completed'')\<rparr> \<in> set (active_tasks ?s1)"
    unfolding s1 by simp
  have none: "filter ?hit (active_tasks ?s1) = []"
    unfolding s1
    using filter_hit_map_done[of "\<lambda>r. zone_prefix r = zn \<and> badge r = bdg" "active_tasks s"]
    by (simp add: conj_assoc)
  then have same: "map ?upd (active_tasks ?s1) = active_tasks ?s1"
    by (simp add: filter_empty_conv map_idI)
  have un: "\<not> unavailable ?s1"
    unfolding s1 using assms(3) by simp
  have second: "complete_task bdg zn ?s1 = (Http200 False, ?s1)"
    using assms(1,2) un none same by (simp add: complete_task_def Let_def)
  show ?thesis using first moved second by blast
qed

theorem complete_task_twice_witness:
  "(lit ''A100'') \<noteq> [] \<and> (lit ''36.02.40.'') \<noteq> [] \<and> \<not> unavailable store_a
   \<and> filter (\<lambda>r. zone_prefix r = (lit ''36.02.40.'') \<and> badge r = (lit ''A100'') \<and> status r = (lit ''active''))
        (active_tasks store_a) = [lease_a]
   \<and> fst (complete_task (lit ''A100'') (lit ''36.02.40.'') store_a) = Http200 True
   \<and> fst (complete_task (lit ''A100'') (lit ''36.02.40.'') (snd (complete_task (lit ''A100'') (lit ''36.02.40.'') store_a)))
       = Http200 False"
  using complete_task_twice[of "(lit ''A100'')" "(lit ''36.02.40.'')" store_a lease_a]
  by (simp add: examples)

text \<open>
  C10. \<open>complete_task\<close> looks at the status only: for a lease whose \<open>expires_at\<close> is
  before \<open>now\<close> (so that the listings no longer count it) but whose status is still
  active, the call of its worker for its zone answers \<open>success = True\<close> and sets the
  lease, and every other active lease of that worker and zone, to completed.
\<close>

theorem complete_task_ignores_expiry:
  assumes "\<not> unavailable s" and "l \<in> set (active_tasks s)" and "status l = (lit ''active'')"
    and "expires_at l < now" and "badge l \<noteq> []" and "zone_prefix l \<noteq> []"
  shows "\<not> live now l
       \<and> fst (complete_task (badge l) (zone_prefix l) s) = Http200 True
       \<and> active_tasks (snd (complete_task (badge l) (zone_prefix l) s)) =
           map (\<lambda>r. if zone_prefix r = zone_prefix l \<and> badge r = badge l \<and> status r = (lit ''active'')
                     then r\<lparr>status := (lit ''completed'')\<rparr> else r) (active_tasks s)
       \<and> l\<lparr>status := (lit ''completed'')\<rparr>
           \<in> set (active_tasks (snd (complete_task (badge l) (zone_prefix l) s)))"
proof -
  let ?hit = "\<lambda>r. zone_prefix r = zone_prefix l \<and> badge r = badge l \<and> status r = (lit ''active'')"
  let ?upd = "\<lambda>r. if ?hit r then r\<lparr>status := (lit ''completed'')\<rparr> else r"
  have mem: "l \<in> set (filter ?hit (active_tasks s))"
    using assms(2,3) by simp
  have pos: "0 < length (filter ?hit (active_tasks s))"
    by (rule length_pos_if_in_set[OF mem])
  have res: "complete_task (badge l) (zone_prefix l) s =
      (Http200 True, s\<lparr>active_tasks := map ?upd (active_tasks s)\<rparr>)"
    unfolding complete_task_def Let_def using assms(1,5,6) pos by simp
  have eq: "l\<lparr>status := (lit ''completed'')\<rparr> = ?upd l"
    using assms(3) by simp
  have "?upd l \<in> ?upd ` set (active_tasks s)"
    using imageI[of l "set (active_tasks s)" ?upd, OF assms(2)] .
  then have "l\<lparr>status := (lit ''completed'')\<rparr> \<in> ?upd ` set (active_tasks s)"
    unfolding eq[symmetric] .
  then have moved: "l\<lparr>status := (lit ''completed'')\<rparr>
      \<in> set (active_tasks (snd (complete_task (badge l) (zone_prefix l) s)))"
    unfolding res by simp
  have dead: "\<not> live now l"
    using assms(4) by (simp add: live_def)
  have first: "fst (complete_task (badge l) (zone_prefix l) s) = Http200 True"
    unfolding res by simp
  have rows: "active_tasks (snd (complete_task (badge l) (zone_prefix l) s))
      = map ?upd (active_tasks s)"
    unfolding res by simp
  show ?thesis
    using dead first rows moved by blast
qed

theorem complete_task_ignores_expiry_witness:
  "\<not> unavailable store_a \<and> lease_a \<in> set (active_tasks store_a) \<and> status lease_a = (lit ''active'')
   \<and> expires_at lease_a < 9000000000 \<and> badge lease_a \<noteq> [] \<and> zone_prefix lease_a \<noteq> []
   \<and> complete_task (lit ''A100'') (lit ''36.02.40.'') store_a =
       (Http200 True, store_a\<lparr>active_tasks := [lease_a\<lparr>status := (lit ''completed'')\<rparr>]\<rparr>)"
  using complete_task_ignores_expiry[of store_a lease_a 9000000000]
  by (simp add: examples complete_task_def)

subsection \<open>Expiry sweep\<close>

text \<open>
  C3, as amended. On a store that answers, \<open>cleanup_expired_tasks\<close> sets to expired every
  lease with status active and \<open>expires_at\<close> strictly before \<open>now\<close>, leaves every other
  lease (also one that expires exactly at \<open>now\<close>) and every other table as they were,
  and a second run changes nothing more.
\<close>

theorem cleanup_expired_tasks_sweep:
  assumes "\<not> unavailable s"
  shows "length (active_tasks (cleanup_expired_tasks now s)) = length (active_tasks s)
       \<and> (\<forall>i < length (active_tasks s).
            active_tasks (cleanup_expired_tasks now s) ! i =
              (if status (active_tasks s ! i) = (lit ''active'') \<and> expires_at (active_tasks s ! i) < now
               then (active_tasks s ! i)\<lparr>status := (lit ''expired'')\<rparr>
               else active_tasks s ! i))
       \<and> cleanup_expired_tasks now s = s\<lparr>active_tasks := active_tasks (cleanup_expired_tasks now s)\<rparr>
       \<and> cleanup_expired_tasks now (cleanup_expired_tasks now s) = cleanup_expired_tasks now s"
proof -
  let ?f = "\<lambda>r. if expires_at r < now \<and> status r = (lit ''active'') then r\<lparr>status := (lit ''expired'')\<rparr> else r"
  have idem: "map ?f (map ?f ts) = map ?f ts" for ts :: "active_task list"
    by (induction ts) auto
  have "cleanup_expired_tasks now (cleanup_expired_tasks now s) = cleanup_expired_tasks now s"
    using assms idem[of "active_tasks s"] by (simp add: cleanup_expired_tasks_def)
  moreover have "\<forall>i < length (active_tasks s).
            active_tasks (cleanup_expired_tasks now s) ! i =
              (if status (active_tasks s ! i) = (lit ''active'') \<and> expires_at (active_tasks s ! i) < now
               then (active_tasks s ! i)\<lparr>status := (lit ''expired'')\<rparr>
               else active_tasks s ! i)"
    using assms by (simp add: cleanup_expired_tasks_def)
  ultimately show ?thesis
    using assms by (simp add: cleanup_expired_tasks_def)
qed

theorem cleanup_expired_tasks_sweep_witness:
  "\<not> unavailable store_a
   \<and> active_tasks (cleanup_expired_tasks 7200000001 store_a) = [lease_a\<lparr>status := (lit ''expired'')\<rparr>]
   \<and> cleanup_expired_tasks 7200000001 (cleanup_expired_tasks 7200000001 store_a)
       = cleanup_expired_tasks 7200000001 store_a"
  using cleanup_expired_tasks_sweep[of store_a 7200000001]
  by (simp add: examples cleanup_expired_tasks_def)

text \<open>C3 as claimed (every active lease with expiration \<open>\<le> now\<close> becomes expired) fails at
  the boundary: swept at the very microsecond it expires, the lease stays active.\<close>

theorem cleanup_boundary_counterexample:
  "expires_at lease_a \<le> 7200000000 \<and> status lease_a = (lit ''active'') \<and>
   active_tasks (cleanup_expired_tasks 7200000000 store_a) = [lease_a]"
  by (simp add: examples cleanup_expired_tasks_def)

subsection \<open>Administrative extension\<close>




subsection \<open>Store failures\<close>

text \<open>
  C6, as amended. The three helpers of the allocation path catch a store failure
  themselves and return a benign value: \<open>reserve_zone\<close> returns \<open>False\<close>, the value it
  returns for an occupied zone, with nothing written; \<open>cleanup_expired_tasks\<close> returns
  with nothing changed; \<open>get_occupied_zones\<close> returns the empty set.
\<close>

theorem store_failure_swallowed:
  assumes "unavailable s"
  shows "reserve_zone now zp bdg hours s = (False, s)
       \<and> cleanup_expired_tasks now s = s
       \<and> get_occupied_zones now s = {}"
  using assms by (simp add: reserve_zone_def cleanup_expired_tasks_def get_occupied_zones_def)

theorem store_failure_swallowed_witness:
  "unavailable (store_a\<lparr>unavailable := True\<rparr>)
   \<and> reserve_zone 0 (lit ''36.03.10.'') (lit ''B200'') 2 (store_a\<lparr>unavailable := True\<rparr>)
       = (False, store_a\<lparr>unavailable := True\<rparr>)
   \<and> cleanup_expired_tasks 9000000000 (store_a\<lparr>unavailable := True\<rparr>) = store_a\<lparr>unavailable := True\<rparr>
   \<and> get_occupied_zones 0 (store_a\<lparr>unavailable := True\<rparr>) = {}"
  using store_failure_swallowed[of "store_a\<lparr>unavailable := True\<rparr>" 0 "(lit ''36.03.10.'')" "(lit ''B200'')" 2]
        store_failure_swallowed[of "store_a\<lparr>unavailable := True\<rparr>" 9000000000]
  by (simp add: examples)

text \<open>C6 as claimed (a store failure reaches the caller as an error of its own) fails:
  \<open>reserve_zone\<close> on a failing store returns what it returns for the occupied zone of
  \<open>store_a\<close>, and \<open>get_occupied_zones\<close> on a failing store that holds a live lease
  returns what it returns for the empty table.\<close>

theorem reserve_zone_swallows_counterexample:
  "fst (reserve_zone 0 (lit ''36.02.40.'') (lit ''B200'') 2 (empty_store\<lparr>unavailable := True\<rparr>)) = False \<and>
   fst (reserve_zone 0 (lit ''36.02.40.'') (lit ''B200'') 2 store_a) = False \<and>
   live 0 lease_a \<and>
   get_occupied_zones 0 (store_a\<lparr>unavailable := True\<rparr>) = {} \<and>
   get_occupied_zones 0 empty_store = {}"
  by (simp add: examples reserve_zone_def get_occupied_zones_def live_def)

subsection \<open>Requesting a zone\<close>

text \<open>A sweep at \<open>sweep_now\<close> does not change which leases are live at a later \<open>now\<close>.\<close>

lemma live_after_sweep:
  assumes "sweep_now \<le> now"
  shows "filter (\<lambda>r. P (zone_prefix r) \<and> live now r)
     (map (\<lambda>r. if expires_at r < sweep_now \<and> status r = lit ''active''
                then r\<lparr>status := lit ''expired''\<rparr> else r) ts)
   = filter (\<lambda>r. P (zone_prefix r) \<and> live now r) ts"
  using assms by (induction ts) (auto simp: live_def)

lemma occupied_after_sweep:
  assumes "\<not> unavailable s" and "sweep_now \<le> now"
  shows "get_occupied_zones now (cleanup_expired_tasks sweep_now s)
           = zone_prefix ` {r \<in> set (active_tasks s). live now r}"
  using assms(1) live_after_sweep[OF assms(2), of "\<lambda>_. True" "active_tasks s"]
  by (simp add: get_occupied_zones_def cleanup_expired_tasks_def)

lemma reserve_after_sweep:
  assumes "\<not> unavailable s" and "sweep_now \<le> now" and "insert_fits zp bdg"
    and "\<forall>r \<in> set (active_tasks s). zone_prefix r = zp \<longrightarrow> \<not> live now r"
    and "interval_ok hours"
  shows "reserve_zone now zp bdg hours (cleanup_expired_tasks sweep_now s)
           = (True, insert_task now zp bdg hours (cleanup_expired_tasks sweep_now s))"
proof -
  have "filter (\<lambda>r. zone_prefix r = zp \<and> live now r) (active_tasks s) = []"
    using assms(4) by (auto simp: filter_empty_conv)
  then have "filter (\<lambda>r. zone_prefix r = zp \<and> live now r)
               (active_tasks (cleanup_expired_tasks sweep_now s)) = []"
    using assms(1) live_after_sweep[OF assms(2), of "\<lambda>z. z = zp" "active_tasks s"]
    by (simp add: cleanup_expired_tasks_def)
  moreover have "\<not> unavailable (cleanup_expired_tasks sweep_now s)"
    using assms(1) by (simp add: cleanup_expired_tasks_def)
  ultimately show ?thesis
    using assms(3,5) by (simp add: reserve_zone_def)
qed

lemma get_new_task_first_attempt:
  assumes "\<not> unavailable s" and "sweep_now \<le> now" and "limit_ok zone_size"
    and "zone_rows (rnd 0) zone_size (warehouse_places s) = p # ps"
    and "place_name p \<noteq> []"
    and "insert_fits (take 9 (place_name p)) bdg"
    and "\<forall>r \<in> set (active_tasks s). zone_prefix r = take 9 (place_name p) \<longrightarrow> \<not> live now r"
  shows "get_new_task rnd sweep_now now bdg zone_size s =
           (Http200 \<lparr>zone = take 9 (place_name p), total_places = length (p # ps),
                     places = p # ps, reserved = True\<rparr>,
            insert_task now (take 9 (place_name p)) bdg 2 (cleanup_expired_tasks sweep_now s))"
proof -
  let ?s1 = "cleanup_expired_tasks sweep_now s"
  let ?zp = "take 9 (place_name p)"
  have un: "\<not> unavailable ?s1" and wp: "warehouse_places ?s1 = warehouse_places s"
    using assms(1) by (simp_all add: cleanup_expired_tasks_def)
  have free: "?zp \<notin> get_occupied_zones now ?s1"
    using assms(7) by (auto simp: occupied_after_sweep[OF assms(1,2)])
  have res: "reserve_zone now ?zp bdg 2 ?s1 = (True, insert_task now ?zp bdg 2 ?s1)"
    by (rule reserve_after_sweep[OF assms(1,2,6,7) interval_ok_2])
  have atts: "[0..<max_attempts] = 0 # [1..<max_attempts]"
    by (simp add: max_attempts_def upt_conv_Cons)
  show ?thesis
    unfolding get_new_task_def Let_def atts
    using un wp free res assms(3,4,5) by simp
qed

lemma zone_rows_catalog:
  "zone_rows 0 50 [place_1, place_2, place_3] =
     [\<lparr>place_cod = 1, place_name = lit ''36.02.40.140.06.01'', qty_shk = 0\<rparr>,
      \<lparr>place_cod = 2, place_name = lit ''36.02.40.140.06.02'', qty_shk = 0\<rparr>]"
  by (simp add: zone_rows_def random_place_def places List.map_filter_def lit_def)

lemma zone_rows_busy:
  "zone_rows r 50 [place_1, place_2] =
     [\<lparr>place_cod = 1, place_name = lit ''36.02.40.140.06.01'', qty_shk = 0\<rparr>,
      \<lparr>place_cod = 2, place_name = lit ''36.02.40.140.06.02'', qty_shk = 0\<rparr>]"
proof -
  have "r mod Suc (Suc 0) = 0 \<or> r mod Suc (Suc 0) = Suc 0" by arith
  then show ?thesis
    by (auto simp: zone_rows_def random_place_def places List.map_filter_def lit_def)
qed

lemma task_attempts_no_places:
  assumes "warehouse_places s = []" and "\<not> unavailable s" and "limit_ok zone_size"
  shows "task_attempts rnd now bdg zone_size atts occ s = (Http503, s)"
  using assms
  by (induction atts) (simp_all add: zone_rows_def random_place_def)

lemma get_new_task_no_places:
  assumes "warehouse_places s = []" and "\<not> unavailable s" and "limit_ok zone_size"
  shows "get_new_task rnd sweep_now now bdg zone_size s
           = (Http503, cleanup_expired_tasks sweep_now s)"
proof -
  have "warehouse_places (cleanup_expired_tasks sweep_now s) = []"
    and "\<not> unavailable (cleanup_expired_tasks sweep_now s)"
    using assms by (simp_all add: cleanup_expired_tasks_def)
  then show ?thesis
    using assms(3) by (simp add: get_new_task_def Let_def task_attempts_no_places)
qed

text \<open>A store that fails throughout does reach the caller of \<open>get_new_task\<close>, through
  the handler's own sampling query, and so does a \<open>zone_size\<close> that \<open>LIMIT\<close> refuses.\<close>

lemma get_new_task_unavailable:
  assumes "unavailable s"
  shows "get_new_task rnd sweep_now now bdg zone_size s = (Http500, s)"
proof -
  have atts: "[0..<max_attempts] = 0 # [1..<max_attempts]"
    by (simp add: max_attempts_def upt_conv_Cons)
  show ?thesis
    unfolding get_new_task_def Let_def atts
    using assms by (simp add: cleanup_expired_tasks_def)
qed

lemma get_new_task_limit_refused:
  assumes "\<not> limit_ok zone_size"
  shows "get_new_task rnd sweep_now now bdg zone_size s
           = (Http500, cleanup_expired_tasks sweep_now s)"
proof -
  have atts: "[0..<max_attempts] = 0 # [1..<max_attempts]"
    by (simp add: max_attempts_def upt_conv_Cons)
  show ?thesis
    unfolding get_new_task_def Let_def atts
    using assms by simp
qed

lemma task_attempts_all_occupied:
  assumes "\<not> unavailable s" and "limit_ok zone_size"
    and "\<And>r. \<exists>p ps. zone_rows r zone_size (warehouse_places s) = p # ps \<and> place_name p \<noteq> []
            \<and> take 9 (place_name p) \<in> occ"
  shows "task_attempts rnd now bdg zone_size atts occ s = (Http503, s)"
proof (induction atts)
  case Nil
  then show ?case by simp
next
  case (Cons a atts)
  obtain p ps where "zone_rows (rnd a) zone_size (warehouse_places s) = p # ps"
     "place_name p \<noteq> []" "take 9 (place_name p) \<in> occ"
    using assms(3) by blast
  then show ?case using Cons assms(1,2) by simp
qed

text \<open>A badge that the column refuses is refused in every attempt, whatever the start of
  the transaction the attempt runs in: the answer is 503 and nothing is written.\<close>

lemma task_attempts_badge_refused:
  assumes "\<not> pg_text bdg \<or> \<not> list_all (\<lambda>c. c = 32) (drop 100 bdg)" and "\<not> unavailable s"
    and "limit_ok zone_size"
  shows "task_attempts rnd now bdg zone_size atts occ s = (Http503, s)"
proof (induction atts arbitrary: occ)
  case Nil
  then show ?case by simp
next
  case (Cons a atts)
  have "reserve_zone now zp bdg 2 s = (False, s)" for zp
    using assms(1) by (auto simp: reserve_zone_def insert_fits_def split: list.splits)
  then show ?case
    using Cons assms(2,3) by (simp split: list.splits)
qed



text \<open>
  C5, as amended. With no location in the catalog (and a store that answers, and a
  \<open>zone_size\<close> that \<open>LIMIT\<close> accepts) \<open>get_new_task\<close> runs out of attempts and gives the
  503 answer, the answer it gives when every sampled zone is occupied; only the sweep has
  touched the store.
\<close>

theorem get_new_task_empty_catalog:
  assumes "warehouse_places s = []" and "\<not> unavailable s"
    and "0 \<le> zone_size" and "zone_size < 2 ^ 63"
  shows "get_new_task rnd sweep_now now bdg zone_size s
           = (Http503, cleanup_expired_tasks sweep_now s)"
  using assms by (intro get_new_task_no_places) (simp_all add: limit_ok_def)

theorem get_new_task_empty_catalog_witness:
  "warehouse_places empty_store = [] \<and> \<not> unavailable empty_store
   \<and> (0::int) \<le> 50 \<and> (50::int) < 2 ^ 63
   \<and> get_new_task rnd_zero 0 0 (lit ''B200'') 50 empty_store = (Http503, empty_store)"
  using get_new_task_empty_catalog[of empty_store 50 rnd_zero 0 0 "lit ''B200''"]
  by (simp add: examples cleanup_expired_tasks_def)

text \<open>C5 as claimed (the empty catalog has an error of its own, distinguishable from
  AllZonesBusy) fails: the answer for the empty catalog is the answer for the catalog
  whose only zone is leased.\<close>

theorem empty_catalog_counterexample:
  "warehouse_places empty_store = [] \<and>
   fst (get_new_task rnd_zero 0 0 (lit ''B200'') 50 empty_store) = Http503 \<and>
   fst (get_new_task rnd_zero 0 0 (lit ''B200'') 50 store_busy) = Http503"
proof -
  have a: "get_new_task rnd_zero 0 0 (lit ''B200'') 50 empty_store
             = (Http503, cleanup_expired_tasks 0 empty_store)"
    by (rule get_new_task_no_places) (simp_all add: examples limit_ok_def)
  have c: "cleanup_expired_tasks 0 store_busy = store_busy"
    by (simp add: cleanup_expired_tasks_def store_busy_def examples)
  have o: "get_occupied_zones 0 store_busy = {lit ''36.02.40.''}"
    by (simp add: get_occupied_zones_def store_busy_def examples live_def)
  have "task_attempts rnd_zero 0 (lit ''B200'') 50 [0..<max_attempts] {lit ''36.02.40.''} store_busy
          = (Http503, store_busy)"
    by (rule task_attempts_all_occupied)
       (simp_all add: store_busy_def examples zone_rows_busy limit_ok_def take_lit)
  then have b: "get_new_task rnd_zero 0 0 (lit ''B200'') 50 store_busy = (Http503, store_busy)"
    by (simp add: get_new_task_def Let_def c o)
  show ?thesis using a b by (simp add: examples)
qed

subsection \<open>Recommendations\<close>

text \<open>Stripping twice is stripping once.\<close>

lemma strip_strip: "strip (strip cs) = strip cs"
proof -
  define a where "a = dropWhile is_space cs"
  define b where "b = rev (dropWhile is_space (rev a))"
  have sb: "strip cs = b" by (simp add: strip_def a_def b_def)
  have tr: "rev (dropWhile is_space (rev b)) = b"
    by (simp add: b_def)
  have "dropWhile is_space b = b"
  proof (cases "a = []")
    case True
    then show ?thesis by (simp add: b_def)
  next
    case False
    then have ha: "\<not> is_space (hd a)"
      unfolding a_def by (rule hd_dropWhile)
    have la: "last (rev a) = hd a"
      using False by (simp add: last_rev)
    have "last (rev a) \<in> set (rev a)"
      using False by (intro last_in_set) simp
    then have ne: "dropWhile is_space (rev a) \<noteq> []"
      using ha la by (auto simp: dropWhile_eq_Nil_conv)
    have "rev a = takeWhile is_space (rev a) @ dropWhile is_space (rev a)"
      by simp
    then have "last (rev a) = last (dropWhile is_space (rev a))"
      using ne by (metis last_appendR)
    then have "hd b = hd a"
      using ne la by (simp add: b_def hd_rev)
    moreover have "b \<noteq> []" using ne by (simp add: b_def)
    ultimately show ?thesis
      using ha by (simp add: dropWhile_eq_self_iff)
  qed
  then show ?thesis
    unfolding sb by (simp add: strip_def tr)
qed

text \<open>\<open>first_seen\<close> keeps rows of the list, in their order, one for every key.\<close>

lemma set_first_seen: "set (first_seen k xs) \<subseteq> set xs"
  by (induction k xs rule: first_seen.induct) auto

lemma first_seen_Nil [simp]: "first_seen k xs = [] \<longleftrightarrow> xs = []"
  by (cases xs) simp_all

lemma hd_first_seen: "hd (first_seen k xs) = hd xs"
  by (cases xs) simp_all

lemma distinct_first_seen: "distinct (map k (first_seen k xs))"
proof (induction k xs rule: first_seen.induct)
  case (1 k)
  then show ?case by simp
next
  case (2 k x xs)
  have "k x \<notin> k ` set (first_seen k (filter (\<lambda>y. k y \<noteq> k x) xs))"
    using set_first_seen[of k "filter (\<lambda>y. k y \<noteq> k x) xs"] by auto
  then show ?case using 2 by simp
qed

lemma sorted_wrt_first_seen:
  "sorted_wrt P xs \<Longrightarrow> sorted_wrt P (first_seen k xs)"
proof (induction k xs rule: first_seen.induct)
  case (1 k)
  then show ?case by simp
next
  case (2 k x xs)
  have "\<forall>y \<in> set (first_seen k (filter (\<lambda>y. k y \<noteq> k x) xs)). P x y"
    using set_first_seen[of k "filter (\<lambda>y. k y \<noteq> k x) xs"] 2(2) by auto
  moreover have "sorted_wrt P (filter (\<lambda>y. k y \<noteq> k x) xs)"
    using 2(2) by (simp add: sorted_wrt_filter)
  ultimately show ?case using 2(1) by simp
qed

text \<open>The loop computes the shortlist.\<close>

lemma suggest_loop_first_seen:
  assumes "length acc < 12"
  shows "suggest_loop up prio rows seen acc =
           take 12 (acc @ map (candidate up prio)
                      (first_seen (\<lambda>row. up (strip (nr_mx_code row)))
                         (filter (\<lambda>row. up (strip (nr_mx_code row)) \<notin> seen)
                            (filter (\<lambda>row. strip (nr_mx_code row) \<noteq> []) rows))))"
  using assms
proof (induction rows arbitrary: seen acc)
  case Nil
  then show ?case by simp
next
  case (Cons row rows)
  let ?K = "\<lambda>row. up (strip (nr_mx_code row))"
  let ?nb = "filter (\<lambda>row. strip (nr_mx_code row) \<noteq> []) rows"
  show ?case
  proof (cases "strip (nr_mx_code row) = [] \<or> ?K row \<in> seen")
    case True
    then have "suggest_loop up prio (row # rows) seen acc = suggest_loop up prio rows seen acc"
      by (auto simp: Let_def)
    then show ?thesis
      using Cons.IH[OF Cons.prems] True by auto
  next
    case False
    have cand: "\<lparr>sg_mx_code = strip (nr_mx_code row),
                 sg_zone = (if length (strip (nr_mx_code row)) \<ge> 9
                            then take 9 (strip (nr_mx_code row)) else strip (nr_mx_code row)),
                 highlight = (?K row \<in> prio)\<rparr> = candidate up prio row"
      by (simp add: candidate_def)
    have ff: "filter (\<lambda>y. ?K y \<noteq> ?K row) (filter (\<lambda>y. ?K y \<notin> seen) ?nb)
                = filter (\<lambda>y. ?K y \<notin> insert (?K row) seen) ?nb"
      by (auto intro: filter_cong)
    have f1: "filter (\<lambda>row. strip (nr_mx_code row) \<noteq> []) (row # rows) = row # ?nb"
      using False by simp
    have f2: "filter (\<lambda>y. ?K y \<notin> seen) (row # ?nb) = row # filter (\<lambda>y. ?K y \<notin> seen) ?nb"
      using False by simp
    have rhs: "first_seen ?K (filter (\<lambda>y. ?K y \<notin> seen)
                 (filter (\<lambda>row. strip (nr_mx_code row) \<noteq> []) (row # rows)))
               = row # first_seen ?K (filter (\<lambda>y. ?K y \<notin> insert (?K row) seen) ?nb)"
      by (simp only: f1 f2 first_seen.simps ff)
    show ?thesis
    proof (cases "length (acc @ [candidate up prio row]) \<ge> 12")
      case True
      then have "suggest_loop up prio (row # rows) seen acc = acc @ [candidate up prio row]"
        using False by (simp add: Let_def cand)
      moreover have "length acc = 11"
        using True Cons.prems by simp
      ultimately show ?thesis
        unfolding rhs by simp
    next
      case short: False
      then have lt: "length (acc @ [candidate up prio row]) < 12" by simp
      have "suggest_loop up prio (row # rows) seen acc
              = suggest_loop up prio rows (insert (?K row) seen) (acc @ [candidate up prio row])"
        using False short by (simp add: Let_def cand)
      then show ?thesis
        unfolding rhs using Cons.IH[OF lt, of "insert (?K row) seen"] by simp
    qed
  qed
qed

lemma suggest_loop_shortlist:
  "suggest_loop up prio rows {} [] = map (candidate up prio) (shortlist up rows)"
  using suggest_loop_first_seen[of "[]" up prio rows "{}"]
  by (simp add: shortlist_def take_map)

lemma get_task_suggestions_shortlist:
  assumes "\<not> unavailable s" and "pg_text (sent_parameter bdg near)"
    and "reference sql_up bdg near s = (ref_floor, ref_row, ref_section)"
  shows "get_task_suggestions up sql_up bdg near s =
           Http200 (map (candidate up (priority_mx up (inventory_results s)))
                      (shortlist up (nearest (or_zero ref_floor) (or_zero ref_row)
                                       (or_zero ref_section) (warehouse_places s))))"
  using assms by (simp add: get_task_suggestions_def suggest_loop_shortlist)

lemma sorted_fst_of_pairs:
  "sorted (map (\<lambda>r. (f r, g r)) xs) \<Longrightarrow> sorted (map f xs)"
  by (induction xs) (auto simp: less_eq_prod_def)

lemma all_distances_set:
  "set (all_distances rf rr rs ps) =
     {\<lparr>nr_mx_code = c,
       dist = \<bar>or_zero (floor_num p) - rf\<bar> + \<bar>or_zero (row_num p) - rr\<bar>
              + \<bar>or_zero (section_num p) - rs\<bar>\<rparr> | p c.
      p \<in> set ps \<and> mx_code p = Some c \<and> c \<noteq> []}"
  by (induction ps)
     (auto simp: all_distances_def List.map_filter_def place_dist_def split: option.splits)

lemma all_distances_nonneg:
  "row \<in> set (all_distances rf rr rs ps) \<Longrightarrow> 0 \<le> dist row"
  by (auto simp: all_distances_set)

lemma shortlist_sorted:
  assumes "sorted (map (\<lambda>row. (dist row, nr_mx_code row)) rows)"
  shows "sorted (map (\<lambda>row. (dist row, nr_mx_code row)) (shortlist up rows))"
proof -
  let ?key = "\<lambda>row. (dist row, nr_mx_code row)"
  have "sorted_wrt (\<lambda>a b. ?key a \<le> ?key b) rows"
    using assms by (simp add: sorted_wrt_map)
  then have "sorted_wrt (\<lambda>a b. ?key a \<le> ?key b)
               (first_seen (\<lambda>row. up (strip (nr_mx_code row)))
                  (filter (\<lambda>row. strip (nr_mx_code row) \<noteq> []) rows))"
    by (intro sorted_wrt_first_seen sorted_wrt_filter)
  then have "sorted_wrt (\<lambda>a b. ?key a \<le> ?key b) (shortlist up rows)"
    unfolding shortlist_def by (rule sorted_wrt_take)
  then show ?thesis by (simp add: sorted_wrt_map)
qed

lemma shortlist_set: "set (shortlist up rows) \<subseteq> set rows"
proof -
  have "set (shortlist up rows) \<subseteq>
          set (first_seen (\<lambda>row. up (strip (nr_mx_code row)))
                 (filter (\<lambda>row. strip (nr_mx_code row) \<noteq> []) rows))"
    unfolding shortlist_def by (rule set_take_subset)
  then show ?thesis
    using set_first_seen[of "\<lambda>row. up (strip (nr_mx_code row))"
            "filter (\<lambda>row. strip (nr_mx_code row) \<noteq> []) rows"]
    by auto
qed

lemma shortlist_head_zero:
  assumes "sorted (map (\<lambda>row. (dist row, nr_mx_code row)) rows)"
    and "\<forall>row \<in> set rows. 0 \<le> dist row"
    and "row \<in> set rows" and "dist row = 0" and "strip (nr_mx_code row) \<noteq> []"
  shows "shortlist up rows \<noteq> [] \<and> dist (hd (shortlist up rows)) = 0"
proof -
  let ?key = "\<lambda>row. (dist row, nr_mx_code row)"
  let ?nb = "filter (\<lambda>row. strip (nr_mx_code row) \<noteq> []) rows"
  have mem: "row \<in> set ?nb"
    using assms(3,5) by simp
  then obtain x xs where nb: "?nb = x # xs"
    by (cases ?nb) auto
  have "sorted (map ?key ?nb)"
    using assms(1) by (simp add: sorted_wrt_map sorted_wrt_filter)
  then have "?key x \<le> ?key row"
    using mem unfolding nb by auto
  then have "dist x \<le> 0"
    using assms(4) by (auto simp: less_eq_prod_def)
  moreover have "x \<in> set ?nb"
    unfolding nb by simp
  then have "x \<in> set rows"
    by simp
  ultimately have zero: "dist x = 0"
    using assms(2) by fastforce
  have "shortlist up rows = x # take 11 (first_seen (\<lambda>row. up (strip (nr_mx_code row)))
          (filter (\<lambda>y. up (strip (nr_mx_code y)) \<noteq> up (strip (nr_mx_code x))) xs))"
    unfolding shortlist_def nb by simp
  then show ?thesis using zero by simp
qed

lemma ref_a100:
  "reference ascii_upper (Some (lit ''A100'')) None store_scans = (Some 2, Some 40, Some 140)"
  by (simp add: reference_def reference_of_badge_def last_scan_def desc_nulls_last_def
        place_by_id_def address_def scans places examples)

lemma prio_scans:
  "priority_mx ascii_upper (inventory_results store_scans) = {lit ''36.03.10.050.01.01''}"
  by (simp add: priority_mx_def priority_rows_def discrepancy_names_def discrepancy_rows_def
        List.map_filter_def max_created_def desc_nulls_last_def strip_def is_space_def
        ascii_upper_def scans places examples lit_def)

lemma near_scans:
  "nearest 2 40 140 (warehouse_places store_scans) =
     [\<lparr>nr_mx_code = lit ''36.02.40.140.06.01'', dist = 0\<rparr>,
      \<lparr>nr_mx_code = lit ''36.02.40.140.06.02'', dist = 0\<rparr>,
      \<lparr>nr_mx_code = lit ''36.03.10.050.01.01'', dist = 121\<rparr>]"
  by (simp add: nearest_def all_distances_def List.map_filter_def place_dist_def or_zero_def
        scans places examples lit_def)

lemma sugg_scans:
  "get_task_suggestions ascii_upper ascii_upper (Some (lit ''A100'')) None store_scans =
     Http200 [\<lparr>sg_mx_code = lit ''36.02.40.140.06.01'', sg_zone = lit ''36.02.40.'',
               highlight = False\<rparr>,
              \<lparr>sg_mx_code = lit ''36.02.40.140.06.02'', sg_zone = lit ''36.02.40.'',
               highlight = False\<rparr>,
              \<lparr>sg_mx_code = lit ''36.03.10.050.01.01'', sg_zone = lit ''36.03.10.'',
               highlight = True\<rparr>]"
proof -
  have un: "\<not> unavailable store_scans" "pg_text (sent_parameter (Some (lit ''A100'')) None)"
    by (simp_all add: scans places examples sent_parameter_def)
  show ?thesis
    unfolding get_task_suggestions_def ref_a100 prio_scans
    using un
    by (simp add: or_zero_def near_scans Let_def strip_def is_space_def ascii_upper_def lit_def)
qed

lemma ref_blank:
  "reference ascii_upper (Some (lit ''A100'')) None store_blank = (Some 2, Some 40, Some 140)"
  by (simp add: reference_def reference_of_badge_def last_scan_def desc_nulls_last_def
        place_by_id_def address_def blanks examples)

lemma near_blank:
  "nearest 2 40 140 (warehouse_places store_blank) =
     [\<lparr>nr_mx_code = lit '' '', dist = 0\<rparr>,
      \<lparr>nr_mx_code = lit ''36.02.40.145.01.01'', dist = 5\<rparr>]"
  by (simp add: nearest_def all_distances_def List.map_filter_def place_dist_def or_zero_def
        blanks examples lit_def)

lemma sugg_blank:
  "get_task_suggestions ascii_upper ascii_upper (Some (lit ''A100'')) None store_blank =
     Http200 [\<lparr>sg_mx_code = lit ''36.02.40.145.01.01'', sg_zone = lit ''36.02.40.'',
               highlight = False\<rparr>]"
proof -
  have un: "\<not> unavailable store_blank" "pg_text (sent_parameter (Some (lit ''A100'')) None)"
    by (simp_all add: blanks examples sent_parameter_def)
  have pr: "priority_mx ascii_upper (inventory_results store_blank) = {}"
    by (simp add: priority_mx_def priority_rows_def discrepancy_names_def
          List.map_filter_def blanks examples)
  show ?thesis
    unfolding get_task_suggestions_def ref_blank pr
    using un
    by (simp add: or_zero_def near_blank Let_def strip_def is_space_def ascii_upper_def lit_def)
qed




text \<open>\<open>max_created\<close> is the latest \<open>created_at\<close>, and there is one latest only.\<close>

lemma fold_latest:
  "fold (\<lambda>r acc. case ir_created_at r of
                    None \<Rightarrow> acc
                  | Some t \<Rightarrow> (case acc of None \<Rightarrow> Some t | Some a \<Rightarrow> Some (max a t))) rs acc = v
   \<Longrightarrow> (case v of
          None \<Rightarrow> acc = None \<and> list_all (\<lambda>r. ir_created_at r = None) rs
        | Some t \<Rightarrow> (acc = Some t \<or> list_ex (\<lambda>r. ir_created_at r = Some t) rs)
                    \<and> (\<forall>a. acc = Some a \<longrightarrow> a \<le> t)
                    \<and> list_all (\<lambda>r. case ir_created_at r of None \<Rightarrow> True | Some t' \<Rightarrow> t' \<le> t) rs)"
proof (induction rs arbitrary: acc v)
  case Nil
  then show ?case by (auto split: option.splits)
next
  case (Cons r rs)
  let ?step = "\<lambda>r acc. case ir_created_at r of
                    None \<Rightarrow> acc
                  | Some t \<Rightarrow> (case acc of None \<Rightarrow> Some t | Some a \<Rightarrow> Some (max a t))"
  have "fold ?step rs (?step r acc) = v"
    using Cons.prems by simp
  from Cons.IH[OF this] show ?case
    by (cases "ir_created_at r"; cases acc; cases v) (auto simp: max_def split: if_splits)
qed

lemma is_latest_max_created: "is_latest rs (max_created rs)"
  using fold_latest[of rs None "max_created rs"]
  by (auto simp: is_latest_def max_created_def split: option.splits)

lemma is_latest_unique:
  assumes "is_latest rs v" and "is_latest rs w"
  shows "v = w"
proof (cases v)
  case None
  then show ?thesis
    using assms by (cases w) (auto simp: is_latest_def list_all_iff list_ex_iff)
next
  case (Some t)
  show ?thesis
  proof (cases w)
    case None
    then show ?thesis
      using assms Some by (auto simp: is_latest_def list_all_iff list_ex_iff)
  next
    case (Some t')
    have "t \<le> t'" "t' \<le> t"
      using assms \<open>v = Some t\<close> Some
      by (auto simp: is_latest_def list_all_iff list_ex_iff split: option.splits)
    then show ?thesis using \<open>v = Some t\<close> Some by simp
  qed
qed

lemma desc_nulls_last_le:
  "desc_nulls_last a \<le> desc_nulls_last b \<longleftrightarrow> \<not> newer b a"
  by (auto simp: desc_nulls_last_def newer_def less_eq_prod_def split: option.splits)

lemma discrepancy_names_set:
  "set (discrepancy_names rs) =
     {n. n \<noteq> [] \<and> (\<exists>r \<in> set rs. ir_has_discrepancy r = Some True \<and> ir_place_name r = Some n)}"
  by (induction rs) (auto simp: discrepancy_names_def List.map_filter_def split: option.splits if_splits)

text \<open>The priority rows are the five latest discrepancy names, latest first.\<close>

lemma priority_rows_props:
  fixes rs :: "inventory_result list"
  defines "K \<equiv> \<lambda>n. desc_nulls_last (max_created (discrepancy_rows rs n))"
  shows "distinct (priority_rows rs)"
    and "set (priority_rows rs) \<subseteq> set (discrepancy_names rs)"
    and "length (priority_rows rs) = min 5 (card (set (discrepancy_names rs)))"
    and "\<forall>m \<in> set (priority_rows rs).
           \<forall>n \<in> set (discrepancy_names rs) - set (priority_rows rs). K m \<le> K n"
    and "sorted (map K (priority_rows rs))"
proof -
  let ?all = "sort_key K (remdups (discrepancy_names rs))"
  have pr: "priority_rows rs = take 5 ?all"
    by (simp add: priority_rows_def K_def)
  have d: "distinct ?all" by simp
  have st: "set ?all = set (discrepancy_names rs)" by simp
  have srt: "sorted (map K ?all)" by (rule sorted_sort_key)
  show "distinct (priority_rows rs)"
    unfolding pr using d by (rule distinct_take)
  show "set (priority_rows rs) \<subseteq> set (discrepancy_names rs)"
    unfolding pr using set_take_subset[of 5 ?all] st by simp
  have "length ?all = card (set (discrepancy_names rs))"
    by (simp add: length_remdups_card_conv)
  then show "length (priority_rows rs) = min 5 (card (set (discrepancy_names rs)))"
    unfolding pr by (simp add: min.commute)
  have split: "?all = take 5 ?all @ drop 5 ?all" by simp
  have "sorted (map K (take 5 ?all @ drop 5 ?all))"
    using srt by simp
  then have le: "\<forall>m \<in> set (take 5 ?all). \<forall>n \<in> set (drop 5 ?all). K m \<le> K n"
    unfolding map_append sorted_append by auto
  have "set ?all = set (take 5 ?all) \<union> set (drop 5 ?all)"
    using split by (metis set_append)
  then have "set (discrepancy_names rs) - set (take 5 ?all) \<subseteq> set (drop 5 ?all)"
    using st by auto
  then show "\<forall>m \<in> set (priority_rows rs).
           \<forall>n \<in> set (discrepancy_names rs) - set (priority_rows rs). K m \<le> K n"
    unfolding pr using le by blast
  show "sorted (map K (priority_rows rs))"
    unfolding pr using srt by (simp add: take_map[symmetric] sorted_wrt_take)
qed

lemma priority_mx_image:
  "priority_mx up rs = (\<lambda>n. up (strip n)) ` set (priority_rows rs)"
proof -
  have "\<forall>n \<in> set (priority_rows rs). n \<noteq> []"
    using priority_rows_props(2)[of rs] by (auto simp: discrepancy_names_set)
  then have "filter (\<lambda>n. n \<noteq> []) (priority_rows rs) = priority_rows rs"
    by (intro filter_True) auto
  then show ?thesis by (simp add: priority_mx_def)
qed

lemma priority_rows_recent:
  assumes "m \<in> set (priority_rows rs)"
    and "n \<in> set (discrepancy_names rs) - set (priority_rows rs)"
    and "is_latest (discrepancy_rows rs m) vm" and "is_latest (discrepancy_rows rs n) vn"
  shows "\<not> newer vn vm"
proof -
  have vm: "vm = max_created (discrepancy_rows rs m)"
    using assms(3) is_latest_max_created by (rule is_latest_unique)
  have vn: "vn = max_created (discrepancy_rows rs n)"
    using assms(4) is_latest_max_created by (rule is_latest_unique)
  have "desc_nulls_last vm \<le> desc_nulls_last vn"
    unfolding vm vn using priority_rows_props(4)[of rs] assms(1,2) by blast
  then show ?thesis by (simp add: desc_nulls_last_le)
qed

lemma priority_rows_order:
  assumes "i < j" and "j < length (priority_rows rs)"
    and "is_latest (discrepancy_rows rs (priority_rows rs ! i)) vi"
    and "is_latest (discrepancy_rows rs (priority_rows rs ! j)) vj"
  shows "\<not> newer vj vi"
proof -
  let ?K = "\<lambda>n. desc_nulls_last (max_created (discrepancy_rows rs n))"
  have vi: "vi = max_created (discrepancy_rows rs (priority_rows rs ! i))"
    using assms(3) is_latest_max_created by (rule is_latest_unique)
  have vj: "vj = max_created (discrepancy_rows rs (priority_rows rs ! j))"
    using assms(4) is_latest_max_created by (rule is_latest_unique)
  have "sorted (map ?K (priority_rows rs))"
    by (rule priority_rows_props(5))
  then have "map ?K (priority_rows rs) ! i \<le> map ?K (priority_rows rs) ! j"
    using assms(1,2) by (intro sorted_nth_mono) simp_all
  then have "desc_nulls_last vi \<le> desc_nulls_last vj"
    unfolding vi vj using assms(1,2) by simp
  then show ?thesis by (simp add: desc_nulls_last_le)
qed

lemma suggestions_priority_props:
  assumes "get_task_suggestions up sql_up bdg near s = Http200 out"
  shows "distinct (map (\<lambda>e. up (strip (sg_mx_code e))) out)
       \<and> length out \<le> 12
       \<and> (\<forall>e \<in> set out. highlight e \<longleftrightarrow>
             up (strip (sg_mx_code e)) \<in> priority_mx up (inventory_results s))
       \<and> priority_mx up (inventory_results s)
           = (\<lambda>n. up (strip n)) ` set (priority_rows (inventory_results s))
       \<and> distinct (priority_rows (inventory_results s))
       \<and> set (priority_rows (inventory_results s)) \<subseteq> set (discrepancy_names (inventory_results s))
       \<and> set (discrepancy_names (inventory_results s)) =
           {n. n \<noteq> [] \<and> (\<exists>r \<in> set (inventory_results s).
                              ir_has_discrepancy r = Some True \<and> ir_place_name r = Some n)}
       \<and> length (priority_rows (inventory_results s))
           = min 5 (card (set (discrepancy_names (inventory_results s))))
       \<and> (\<forall>m \<in> set (priority_rows (inventory_results s)).
          \<forall>n \<in> set (discrepancy_names (inventory_results s))
                 - set (priority_rows (inventory_results s)).
          \<forall>vm vn. is_latest (discrepancy_rows (inventory_results s) m) vm
                   \<and> is_latest (discrepancy_rows (inventory_results s) n) vn
                   \<longrightarrow> \<not> newer vn vm)
       \<and> (\<forall>i j vi vj.
            i < j \<and> j < length (priority_rows (inventory_results s))
            \<and> is_latest (discrepancy_rows (inventory_results s)
                           (priority_rows (inventory_results s) ! i)) vi
            \<and> is_latest (discrepancy_rows (inventory_results s)
                           (priority_rows (inventory_results s) ! j)) vj
            \<longrightarrow> \<not> newer vj vi)
       \<and> (\<forall>n. \<exists>v. is_latest (discrepancy_rows (inventory_results s) n) v)"
proof -
  let ?rs = "inventory_results s"
  let ?prio = "priority_mx up ?rs"
  let ?K = "\<lambda>row. up (strip (nr_mx_code row))"
  obtain rf rr rs where out: "out = map (candidate up ?prio)
                                      (shortlist up (nearest rf rr rs (warehouse_places s)))"
    using assms
    by (auto simp: get_task_suggestions_def suggest_loop_shortlist Let_def
             split: if_splits prod.splits)
  let ?sl = "shortlist up (nearest rf rr rs (warehouse_places s))"
  have norm: "map (\<lambda>e. up (strip (sg_mx_code e))) out = map ?K ?sl"
    unfolding out by (simp add: candidate_def strip_strip)
  have "distinct (take 12 (map ?K (first_seen ?K
          (filter (\<lambda>row. strip (nr_mx_code row) \<noteq> []) (nearest rf rr rs (warehouse_places s))))))"
    by (rule distinct_take) (rule distinct_first_seen)
  then have "distinct (map ?K ?sl)"
    unfolding shortlist_def by (simp add: take_map)
  then have d: "distinct (map (\<lambda>e. up (strip (sg_mx_code e))) out)"
    unfolding norm .
  have len: "length out \<le> 12"
    unfolding out shortlist_def by simp
  have hl: "\<forall>e \<in> set out. highlight e \<longleftrightarrow> up (strip (sg_mx_code e)) \<in> ?prio"
    unfolding out by (auto simp: candidate_def strip_strip)
  have recent: "\<forall>m \<in> set (priority_rows ?rs).
          \<forall>n \<in> set (discrepancy_names ?rs) - set (priority_rows ?rs).
          \<forall>vm vn. is_latest (discrepancy_rows ?rs m) vm \<and> is_latest (discrepancy_rows ?rs n) vn
                   \<longrightarrow> \<not> newer vn vm"
    using priority_rows_recent by blast
  have order: "\<forall>i j vi vj.
            i < j \<and> j < length (priority_rows ?rs)
            \<and> is_latest (discrepancy_rows ?rs (priority_rows ?rs ! i)) vi
            \<and> is_latest (discrepancy_rows ?rs (priority_rows ?rs ! j)) vj
            \<longrightarrow> \<not> newer vj vi"
    using priority_rows_order by blast
  have ex: "\<forall>n. \<exists>v. is_latest (discrepancy_rows ?rs n) v"
    using is_latest_max_created by blast
  show ?thesis
    using d len hl priority_mx_image[of up ?rs] priority_rows_props(1,2,3)[of ?rs]
      discrepancy_names_set[of ?rs] recent order ex
    by (intro conjI)
qed

text \<open>
  C9. The answer of \<open>get_task_suggestions\<close> has no two entries with the same stripped
  upper-case code and at most 12 entries, and an entry is highlighted exactly when its
  stripped upper-case code is in \<open>priority_mx\<close>. \<open>priority_mx\<close> holds the stripped
  upper-case forms of the priority rows, which are distinct names with a discrepancy,
  five of them or all when there are fewer, none older than a discrepancy name left
  out, and in the order latest first.
\<close>

theorem suggestions_dedup_cap_highlight:
  assumes "get_task_suggestions up sql_up bdg near s = Http200 out"
  shows "distinct (map (\<lambda>e. up (strip (sg_mx_code e))) out)
       \<and> length out \<le> 12
       \<and> (\<forall>e \<in> set out. highlight e \<longleftrightarrow>
             up (strip (sg_mx_code e)) \<in> priority_mx up (inventory_results s))
       \<and> priority_mx up (inventory_results s)
           = (\<lambda>n. up (strip n)) ` set (priority_rows (inventory_results s))
       \<and> distinct (priority_rows (inventory_results s))
       \<and> set (priority_rows (inventory_results s)) \<subseteq> set (discrepancy_names (inventory_results s))
       \<and> set (discrepancy_names (inventory_results s)) =
           {n. n \<noteq> [] \<and> (\<exists>r \<in> set (inventory_results s).
                              ir_has_discrepancy r = Some True \<and> ir_place_name r = Some n)}
       \<and> length (priority_rows (inventory_results s))
           = min 5 (card (set (discrepancy_names (inventory_results s))))
       \<and> (\<forall>m \<in> set (priority_rows (inventory_results s)).
          \<forall>n \<in> set (discrepancy_names (inventory_results s))
                 - set (priority_rows (inventory_results s)).
          \<forall>vm vn. is_latest (filter (\<lambda>r. ir_has_discrepancy r = Some True \<and> ir_place_name r = Some m)
                             (inventory_results s)) vm
                   \<and> is_latest (filter (\<lambda>r. ir_has_discrepancy r = Some True \<and> ir_place_name r = Some n)
                             (inventory_results s)) vn
                   \<longrightarrow> \<not> newer vn vm)
       \<and> (\<forall>i j vi vj.
            i < j \<and> j < length (priority_rows (inventory_results s))
            \<and> is_latest (filter (\<lambda>r. ir_has_discrepancy r = Some True
                                     \<and> ir_place_name r = Some (priority_rows (inventory_results s) ! i))
                           (inventory_results s)) vi
            \<and> is_latest (filter (\<lambda>r. ir_has_discrepancy r = Some True
                                     \<and> ir_place_name r = Some (priority_rows (inventory_results s) ! j))
                           (inventory_results s)) vj
            \<longrightarrow> \<not> newer vj vi)
       \<and> (\<forall>n. \<exists>v. is_latest (filter (\<lambda>r. ir_has_discrepancy r = Some True \<and> ir_place_name r = Some n)
                               (inventory_results s)) v)"
  using suggestions_priority_props[OF assms] unfolding discrepancy_rows_def .

theorem suggestions_dedup_cap_highlight_witness:
  "get_task_suggestions ascii_upper ascii_upper (Some (lit ''A100'')) None store_scans =
       Http200 [\<lparr>sg_mx_code = lit ''36.02.40.140.06.01'', sg_zone = lit ''36.02.40.'',
                 highlight = False\<rparr>,
                \<lparr>sg_mx_code = lit ''36.02.40.140.06.02'', sg_zone = lit ''36.02.40.'',
                 highlight = False\<rparr>,
                \<lparr>sg_mx_code = lit ''36.03.10.050.01.01'', sg_zone = lit ''36.03.10.'',
                 highlight = True\<rparr>]
   \<and> priority_mx ascii_upper (inventory_results store_scans) = {lit ''36.03.10.050.01.01''}
   \<and> length (priority_rows (inventory_results store_scans))
       = min 5 (card (set (discrepancy_names (inventory_results store_scans))))
   \<and> is_latest (filter (\<lambda>r. ir_has_discrepancy r = Some True
                              \<and> ir_place_name r = Some (lit '' 36.03.10.050.01.01''))
                  (inventory_results store_scans)) (Some 200)"
proof -
  note r = suggestions_dedup_cap_highlight[OF sugg_scans]
  have len: "length (priority_rows (inventory_results store_scans))
       = min 5 (card (set (discrepancy_names (inventory_results store_scans))))"
    using r by (elim conjE)
  have lat: "is_latest (filter (\<lambda>r. ir_has_discrepancy r = Some True
                              \<and> ir_place_name r = Some (lit '' 36.03.10.050.01.01''))
                  (inventory_results store_scans)) (Some 200)"
    by (simp add: is_latest_def scans)
  show ?thesis
    by (intro conjI sugg_scans prio_scans len lat)
qed

end
